theory Spec2Isabelle
  imports Main
begin

section \<open>Strings\<close>

text \<open>
  A JavaScript string is a sequence of UTF-16 code units. A code unit is modelled as a
  natural number, so that the mask character U+2022 and the white space beyond ASCII are
  single characters, as they are for \<^verbatim>\<open>String.prototype.length\<close>, \<^verbatim>\<open>slice\<close> and the
  regular expressions of the source (none of which has the \<^verbatim>\<open>u\<close> flag).
\<close>

type_synonym jchar = nat
type_synonym jsstring = "jchar list"

definition js :: "string \<Rightarrow> jsstring" where
  "js s = map of_char s"

definition SP :: jchar where
  "SP = of_char CHR '' ''"

text \<open>The mask character U+2022 of \<^verbatim>\<open>displayBlock\<close>.\<close>

definition BULLET :: jchar where
  "BULLET = 8226"

definition is_char :: "char \<Rightarrow> jchar \<Rightarrow> bool" where
  "is_char k c = (c = of_char k)"

definition in_range :: "char \<Rightarrow> char \<Rightarrow> jchar \<Rightarrow> bool" where
  "in_range lo hi c = (of_char lo \<le> c \<and> c \<le> of_char hi)"

text \<open>The class \<^verbatim>\<open>\d\<close>: the ASCII digits.\<close>

definition is_digit :: "jchar \<Rightarrow> bool" where
  "is_digit c = in_range CHR ''0'' CHR ''9'' c"

text \<open>
  The class \<^verbatim>\<open>\s\<close> of ECMAScript, which is also what \<^verbatim>\<open>trim\<close> removes: TAB, LF, VT, FF,
  CR, SPACE, NBSP, U+1680, U+2000 to U+200A, U+2028, U+2029, U+202F, U+205F, U+3000,
  U+FEFF.
\<close>

definition is_ws :: "jchar \<Rightarrow> bool" where
  "is_ws c = (c \<in> set [9, 10, 11, 12, 13, 32, 160, 5760, 8232, 8233, 8239, 8287, 12288, 65279]
     \<or> (8192 \<le> c \<and> c \<le> 8202))"

text \<open>\<^verbatim>\<open>s.slice(a)\<close> and \<^verbatim>\<open>s.slice(a, b)\<close> for non-negative indices: both clamp at the
  length of the string.\<close>

definition slice_from :: "jsstring \<Rightarrow> nat \<Rightarrow> jsstring" where
  "slice_from s a = drop a s"

definition slice :: "jsstring \<Rightarrow> nat \<Rightarrow> nat \<Rightarrow> jsstring" where
  "slice s a b = take (b - a) (drop a s)"

text \<open>\<^verbatim>\<open>String.prototype.trim\<close>.\<close>

definition trim :: "jsstring \<Rightarrow> jsstring" where
  "trim s = rev (dropWhile is_ws (rev (dropWhile is_ws s)))"

section \<open>Card number utilities (cardFormatter)\<close>

subsection \<open>detectCardBrand\<close>

datatype CardBrand = visa | mastercard | amex | discover | diners | jcb | unionpay | unknown

text \<open>\<^verbatim>\<open>/^4/\<close>\<close>

fun visa_pattern :: "jsstring \<Rightarrow> bool" where
  "visa_pattern (a # _) = is_char CHR ''4'' a"
| "visa_pattern _ = False"

text \<open>\<^verbatim>\<open>/^(5[1-5]|2(2[2-9][0-9]|[3-6][0-9]{2}|7[0-1][0-9]|720))/\<close>\<close>

fun mastercard_pattern :: "jsstring \<Rightarrow> bool" where
  "mastercard_pattern (a # b # rest) =
     ((is_char CHR ''5'' a \<and> in_range CHR ''1'' CHR ''5'' b)
      \<or> (is_char CHR ''2'' a \<and>
          (case rest of
             c # d # _ \<Rightarrow>
               (is_char CHR ''2'' b \<and> in_range CHR ''2'' CHR ''9'' c \<and> in_range CHR ''0'' CHR ''9'' d)
               \<or> (in_range CHR ''3'' CHR ''6'' b \<and> in_range CHR ''0'' CHR ''9'' c
                   \<and> in_range CHR ''0'' CHR ''9'' d)
               \<or> (is_char CHR ''7'' b \<and> in_range CHR ''0'' CHR ''1'' c \<and> in_range CHR ''0'' CHR ''9'' d)
               \<or> (is_char CHR ''7'' b \<and> is_char CHR ''2'' c \<and> is_char CHR ''0'' d)
           | _ \<Rightarrow> False)))"
| "mastercard_pattern _ = False"

text \<open>\<^verbatim>\<open>/^3[47]/\<close>\<close>

fun amex_pattern :: "jsstring \<Rightarrow> bool" where
  "amex_pattern (a # b # _) =
     (is_char CHR ''3'' a \<and> (is_char CHR ''4'' b \<or> is_char CHR ''7'' b))"
| "amex_pattern _ = False"

text \<open>\<^verbatim>\<open>/^6(?:011|5)/\<close>\<close>

fun discover_pattern :: "jsstring \<Rightarrow> bool" where
  "discover_pattern (a # rest) =
     (is_char CHR ''6'' a \<and>
      ((case rest of
          b # c # d # _ \<Rightarrow> is_char CHR ''0'' b \<and> is_char CHR ''1'' c \<and> is_char CHR ''1'' d
        | _ \<Rightarrow> False)
       \<or> (case rest of b # _ \<Rightarrow> is_char CHR ''5'' b | _ \<Rightarrow> False)))"
| "discover_pattern _ = False"

text \<open>\<^verbatim>\<open>/^3(?:0[0-5]|[68])/\<close>\<close>

fun diners_pattern :: "jsstring \<Rightarrow> bool" where
  "diners_pattern (a # b # rest) =
     (is_char CHR ''3'' a \<and>
      ((is_char CHR ''0'' b \<and> (case rest of c # _ \<Rightarrow> in_range CHR ''0'' CHR ''5'' c | _ \<Rightarrow> False))
       \<or> is_char CHR ''6'' b \<or> is_char CHR ''8'' b))"
| "diners_pattern _ = False"

text \<open>\<^verbatim>\<open>/^35/\<close>\<close>

fun jcb_pattern :: "jsstring \<Rightarrow> bool" where
  "jcb_pattern (a # b # _) = (is_char CHR ''3'' a \<and> is_char CHR ''5'' b)"
| "jcb_pattern _ = False"

text \<open>\<^verbatim>\<open>/^62/\<close>\<close>

fun unionpay_pattern :: "jsstring \<Rightarrow> bool" where
  "unionpay_pattern (a # b # _) = (is_char CHR ''6'' a \<and> is_char CHR ''2'' b)"
| "unionpay_pattern _ = False"

text \<open>The object \<^verbatim>\<open>patterns\<close>; \<^verbatim>\<open>Object.entries\<close> lists its keys in the order they are
  written.\<close>

definition patterns :: "(CardBrand \<times> (jsstring \<Rightarrow> bool)) list" where
  "patterns =
     [(visa, visa_pattern), (mastercard, mastercard_pattern), (amex, amex_pattern),
      (discover, discover_pattern), (diners, diners_pattern), (jcb, jcb_pattern),
      (unionpay, unionpay_pattern)]"

text \<open>The \<^verbatim>\<open>for ... of\<close> loop: the first entry whose pattern tests true is returned.\<close>

fun first_match :: "(CardBrand \<times> (jsstring \<Rightarrow> bool)) list \<Rightarrow> jsstring \<Rightarrow> CardBrand" where
  "first_match [] number = unknown"
| "first_match ((brand, pattern) # entries) number =
     (if pattern number then brand else first_match entries number)"

definition detectCardBrand :: "jsstring \<Rightarrow> CardBrand" where
  "detectCardBrand number = first_match patterns number"

subsection \<open>formatCardNumber\<close>

text \<open>
  \<^verbatim>\<open>cleaned.replace(/(\d{4})/g, "$1 ")\<close>: scanning from the left, four digits in a row are
  copied and followed by a space, and the scan goes on after them; any other character is
  copied and the scan goes on at the next one.
\<close>

fun group4 :: "jsstring \<Rightarrow> jsstring" where
  "group4 (a # b # c # d # rest) =
     (if is_digit a \<and> is_digit b \<and> is_digit c \<and> is_digit d
      then a # b # c # d # SP # group4 rest
      else a # group4 (b # c # d # rest))"
| "group4 s = s"

definition formatCardNumber :: "jsstring \<Rightarrow> jsstring" where
  "formatCardNumber v =
     (let cleaned = filter (\<lambda>c. \<not> is_ws c) v;
          brand = detectCardBrand cleaned
      in if brand = amex then
           (if length cleaned \<le> 4 then cleaned
            else if length cleaned \<le> 10 then slice cleaned 0 4 @ [SP] @ slice_from cleaned 4
            else slice cleaned 0 4 @ [SP] @ slice cleaned 4 10 @ [SP] @ slice_from cleaned 10)
         else trim (group4 cleaned))"

subsection \<open>cleanCardNumber\<close>

text \<open>\<^verbatim>\<open>value.replace(/\D/g, "")\<close>\<close>

definition cleanCardNumber :: "jsstring \<Rightarrow> jsstring" where
  "cleanCardNumber v = filter is_digit v"

subsection \<open>validateCardNumber\<close>

text \<open>
  A JavaScript number that is either a natural number or NaN (\<open>None\<close>). \<^verbatim>\<open>parseInt\<close> of a
  one-character string is the digit's value, and NaN for any other character.
\<close>

type_synonym jsnum = "nat option"

definition parseInt :: "jchar \<Rightarrow> jsnum" where
  "parseInt c = (if is_digit c then Some (c - of_char CHR ''0'') else None)"

definition num_times2 :: "jsnum \<Rightarrow> jsnum" where
  "num_times2 x = map_option (\<lambda>d. d * 2) x"

text \<open>\<^verbatim>\<open>digit > 9\<close>: false for NaN.\<close>

definition num_gt9 :: "jsnum \<Rightarrow> bool" where
  "num_gt9 x = (case x of None \<Rightarrow> False | Some d \<Rightarrow> d > 9)"

definition num_minus9 :: "jsnum \<Rightarrow> jsnum" where
  "num_minus9 x = map_option (\<lambda>d. d - 9) x"

definition num_plus :: "jsnum \<Rightarrow> jsnum \<Rightarrow> jsnum" where
  "num_plus x y = (case (x, y) of (Some a, Some b) \<Rightarrow> Some (a + b) | _ \<Rightarrow> None)"

text \<open>
  The loop \<^verbatim>\<open>for (let i = cleaned.length - 1; i >= 0; i--)\<close>. The second argument is
  \<open>i + 1\<close>, the number of characters still to be read, so that the loop ends at 0; the
  body reads \<open>cleaned[i]\<close>. The variable \<^verbatim>\<open>sum\<close> is \<open>sumv\<close> here.
\<close>

fun luhn_loop :: "jsstring \<Rightarrow> nat \<Rightarrow> jsnum \<Rightarrow> bool \<Rightarrow> jsnum" where
  "luhn_loop cleaned 0 sumv isEven = sumv"
| "luhn_loop cleaned (Suc i) sumv isEven =
     (let digit = parseInt (cleaned ! i);
          digit = (if isEven
                   then (let doubled = num_times2 digit
                         in if num_gt9 doubled then num_minus9 doubled else doubled)
                   else digit)
      in luhn_loop cleaned i (num_plus sumv digit) (\<not> isEven))"

definition validateCardNumber :: "jsstring \<Rightarrow> bool" where
  "validateCardNumber number =
     (let cleaned = cleanCardNumber number
      in if length cleaned < 13 \<or> length cleaned > 19 then False
         else (case luhn_loop cleaned (length cleaned) (Some 0) False of
                 None \<Rightarrow> False
               | Some sumv \<Rightarrow> sumv mod 10 = 0))"

subsection \<open>getMaxLength, getCardTemplate, getGhostText\<close>

definition getMaxLength :: "CardBrand \<Rightarrow> nat" where
  "getMaxLength brand = (if brand = amex then 15 else if brand = diners then 14 else 16)"

definition getCardTemplate :: "CardBrand \<Rightarrow> jsstring" where
  "getCardTemplate brand =
     (if brand = amex then js ''1234 123456 12345'' else js ''1234 1234 1234 1234'')"

definition getGhostText :: "jsstring \<Rightarrow> CardBrand \<Rightarrow> jsstring" where
  "getGhostText currentValue brand = slice_from (getCardTemplate brand) (length currentValue)"

section \<open>The component (CardInput)\<close>

subsection \<open>Capacities\<close>

definition getFrontMaxLength :: "CardBrand \<Rightarrow> nat" where
  "getFrontMaxLength brand = (if brand = amex then 4 else 8)"

definition getBlock3MaxLength :: "CardBrand \<Rightarrow> nat" where
  "getBlock3MaxLength brand = (if brand = amex then 6 else 4)"

definition getBlock4MaxLength :: "CardBrand \<Rightarrow> nat" where
  "getBlock4MaxLength brand = (if brand = amex then 5 else 4)"

subsection \<open>State\<close>

datatype Block = Block3 | Block4

text \<open>
  The values of the \<^verbatim>\<open>useState\<close> hooks, and the value of the ref \<^verbatim>\<open>prevFrontPartRef\<close>.
  \<open>cursorPosition\<close> is \<open>None\<close> for \<^verbatim>\<open>null\<close>.
\<close>

record CardState =
  frontPart :: jsstring
  block3 :: jsstring
  block4 :: jsstring
  activeBlock :: Block
  brand :: CardBrand
  isValid :: bool
  cursorPosition :: "nat option"
  showKeypad :: bool
  binCheckLoading :: bool
  binCheckComplete :: bool
  prevFrontPartRef :: jsstring

text \<open>The props: \<open>onBinCheck\<close> says whether the callback \<^verbatim>\<open>onBinCheck\<close> is given.\<close>

record CardInputProps =
  resetBackOnFrontEdit :: bool
  onBinCheck :: bool

definition initialState :: CardState where
  "initialState =
     \<lparr>frontPart = [], block3 = [], block4 = [], activeBlock = Block3, brand = unknown,
      isValid = False, cursorPosition = None, showKeypad = False, binCheckLoading = False,
      binCheckComplete = False, prevFrontPartRef = []\<rparr>"

definition fullCardNumber :: "CardState \<Rightarrow> jsstring" where
  "fullCardNumber s = frontPart s @ block3 s @ block4 s"

definition isFrontComplete :: "CardState \<Rightarrow> bool" where
  "isFrontComplete s =
     (brand s \<noteq> unknown \<and> length (frontPart s) = getFrontMaxLength (brand s))"

definition isBlock3Enabled :: "CardState \<Rightarrow> bool" where
  "isBlock3Enabled s = binCheckComplete s"

definition isBlock4Enabled :: "CardState \<Rightarrow> bool" where
  "isBlock4Enabled s = (length (block3 s) = getBlock3MaxLength (brand s))"

subsection \<open>Display helpers\<close>

definition getBlockTemplate :: "CardState \<Rightarrow> Block \<Rightarrow> jsstring" where
  "getBlockTemplate s blockName =
     (if blockName = Block3 then (if brand s = amex then js ''123456'' else js ''1234'')
      else (if brand s = amex then js ''12345'' else js ''1234''))"

text \<open>\<^verbatim>\<open>blockValue.split('').map(() => mask).join('')\<close>: one mask character for each code
  unit.\<close>

definition displayBlock :: "CardState \<Rightarrow> jsstring \<Rightarrow> Block \<Rightarrow> jsstring" where
  "displayBlock s blockValue blockName =
     (let template = getBlockTemplate s blockName;
          masked = concat (map (\<lambda>_. [BULLET]) blockValue);
          ghost = slice_from template (length blockValue)
      in masked @ ghost)"

text \<open>\<^verbatim>\<open>parts.join(sep)\<close>\<close>

fun join :: "jsstring \<Rightarrow> jsstring list \<Rightarrow> jsstring" where
  "join sep [] = []"
| "join sep [p] = p"
| "join sep (p # q # ps) = p @ sep @ join sep (q # ps)"

definition getDisplayCardNumber :: "CardState \<Rightarrow> jsstring" where
  "getDisplayCardNumber s =
     (let front = formatCardNumber (frontPart s)
      in if block3 s = [] \<and> block4 s = [] then front
         else (let display3 = displayBlock s (block3 s) Block3;
                   display4 = displayBlock s (block4 s) Block4;
                   parts = filter (\<lambda>p. p \<noteq> []) [front, display3, display4]
               in join [SP] parts))"

subsection \<open>Helpers of the front input\<close>

definition extractFrontPartFromInput :: "jsstring \<Rightarrow> CardBrand \<Rightarrow> jsstring" where
  "extractFrontPartFromInput v currentBrand =
     (let frontMaxLength = getFrontMaxLength currentBrand;
          frontMaxFormatted =
            length (formatCardNumber (replicate frontMaxLength (of_char CHR ''9'')));
          frontPartValue = slice v 0 frontMaxFormatted
      in filter is_digit (filter (\<lambda>c. \<not> (c = BULLET \<or> is_ws c)) frontPartValue))"

definition adjustFrontPartForBrandChange :: "jsstring \<Rightarrow> CardBrand \<Rightarrow> CardBrand \<Rightarrow> jsstring" where
  "adjustFrontPartForBrandChange fp oldBrand newBrand =
     (let oldMaxLength = getFrontMaxLength oldBrand;
          newMaxLength = getFrontMaxLength newBrand
      in if newMaxLength < oldMaxLength \<and> length fp > newMaxLength
         then slice fp 0 newMaxLength else fp)"

definition shouldResetBackBlocks ::
  "CardInputProps \<Rightarrow> jsstring \<Rightarrow> jsstring \<Rightarrow> CardBrand \<Rightarrow> CardBrand \<Rightarrow> bool \<Rightarrow> bool" where
  "shouldResetBackBlocks props newFrontPart prevFrontPart newBrand oldBrand hasBackBlocks =
     (if \<not> resetBackOnFrontEdit props \<or> \<not> hasBackBlocks then False
      else newFrontPart \<noteq> prevFrontPart \<or> newBrand \<noteq> oldBrand)"

definition resetBackBlocks :: "CardState \<Rightarrow> CardState" where
  "resetBackBlocks s =
     s\<lparr>block3 := [], block4 := [], activeBlock := Block3, showKeypad := False,
       binCheckComplete := False\<rparr>"

text \<open>
  The loop of \<^verbatim>\<open>calculateCursorPosition\<close> over the characters \<open>formattedValue[i]\<close>, from
  index \<open>i\<close> on, with the count of characters other than a space so far. It returns at the
  \<^verbatim>\<open>break\<close>; at the end of the string \<^verbatim>\<open>newCursorPos\<close> is still 0.
\<close>

fun cursor_loop :: "jsstring \<Rightarrow> nat \<Rightarrow> nat \<Rightarrow> nat \<Rightarrow> nat" where
  "cursor_loop [] digitsBeforeCursor i digitCount = 0"
| "cursor_loop (c # rest) digitsBeforeCursor i digitCount =
     (let digitCount = (if c \<noteq> SP then digitCount + 1 else digitCount)
      in if digitCount = digitsBeforeCursor then i + 1
         else cursor_loop rest digitsBeforeCursor (i + 1) digitCount)"

definition calculateCursorPosition :: "jsstring \<Rightarrow> nat \<Rightarrow> nat" where
  "calculateCursorPosition formattedValue digitsBeforeCursor =
     cursor_loop formattedValue digitsBeforeCursor 0 0"

subsection \<open>handleFrontChange\<close>

text \<open>Step 1: the brand in effect before the edit.\<close>

definition currentBrandOf :: "CardState \<Rightarrow> CardBrand" where
  "currentBrandOf s = (if brand s \<noteq> unknown then brand s else detectCardBrand (frontPart s))"

text \<open>Step 5: the test of the early \<^verbatim>\<open>return\<close>, on its own.\<close>

definition frontEditRejected :: "jsstring \<Rightarrow> CardState \<Rightarrow> bool" where
  "frontEditRejected v s =
     (let currentBrand = currentBrandOf s;
          cleanedValue = extractFrontPartFromInput v currentBrand;
          detectedBrand = detectCardBrand cleanedValue;
          detectedFrontMaxLength = getFrontMaxLength detectedBrand;
          brandChanged = (detectedBrand \<noteq> currentBrand)
      in \<not> brandChanged \<and> length cleanedValue > detectedFrontMaxLength)"

text \<open>Step 7: the digits before the caret in the raw text.\<close>

definition digitsBeforeCursorOf :: "jsstring \<Rightarrow> nat \<Rightarrow> nat" where
  "digitsBeforeCursorOf v cursorPos =
     (let beforeCursor = filter (\<lambda>c. c \<noteq> BULLET) (slice v 0 cursorPos)
      in length (cleanCardNumber beforeCursor))"

text \<open>
  The handler, on the text \<open>v\<close> of the input and its \<^verbatim>\<open>selectionStart\<close> (a number or
  \<^verbatim>\<open>null\<close>). The calls of the state setters are applied in the order of the source; each
  sets a value computed from the state of the current render.
\<close>

definition handleFrontChange ::
  "CardInputProps \<Rightarrow> jsstring \<Rightarrow> nat option \<Rightarrow> CardState \<Rightarrow> CardState" where
  "handleFrontChange props v selectionStart s =
     (let cursorPos = (case selectionStart of None \<Rightarrow> 0 | Some p \<Rightarrow> p);
          currentBrand = currentBrandOf s;
          cleanedValue = extractFrontPartFromInput v currentBrand;
          detectedBrand = detectCardBrand cleanedValue;
          detectedFrontMaxLength = getFrontMaxLength detectedBrand;
          brandChanged = (detectedBrand \<noteq> currentBrand);
          newFrontPart =
            (if brandChanged
             then adjustFrontPartForBrandChange cleanedValue currentBrand detectedBrand
             else cleanedValue);
          newFrontPart = slice newFrontPart 0 detectedFrontMaxLength
      in if \<not> brandChanged \<and> length cleanedValue > detectedFrontMaxLength then s
         else
           (let hasBackBlocks = (block3 s \<noteq> [] \<or> block4 s \<noteq> []);
                didReset = shouldResetBackBlocks props newFrontPart (prevFrontPartRef s)
                             detectedBrand (brand s) hasBackBlocks;
                s1 = (if didReset then resetBackBlocks s else s);
                digitsBeforeCursor = digitsBeforeCursorOf v cursorPos;
                s2 = s1\<lparr>frontPart := newFrontPart, brand := detectedBrand,
                        prevFrontPartRef := newFrontPart\<rparr>;
                isFrontCompleteNow =
                  (length newFrontPart = detectedFrontMaxLength \<and> detectedBrand \<noteq> unknown);
                s3 = (if \<not> didReset \<and> isFrontCompleteNow then s2\<lparr>showKeypad := True\<rparr> else s2);
                formattedFront = formatCardNumber newFrontPart;
                newCursorPos = calculateCursorPosition formattedFront digitsBeforeCursor
            in s3\<lparr>cursorPosition := Some newCursorPos\<rparr>))"

subsection \<open>Keypad handlers\<close>

definition handleKeypadNumber :: "jsstring \<Rightarrow> CardState \<Rightarrow> CardState" where
  "handleKeypadNumber num s =
     (if activeBlock s = Block3 \<and> isBlock3Enabled s then
        (let maxLength = getBlock3MaxLength (brand s)
         in if length (block3 s) \<ge> maxLength then s
            else (let newBlock3 = block3 s @ num;
                      s1 = s\<lparr>block3 := newBlock3\<rparr>
                  in if length newBlock3 = maxLength then s1\<lparr>activeBlock := Block4\<rparr> else s1))
      else if activeBlock s = Block4 \<and> isBlock4Enabled s then
        (let maxLength = getBlock4MaxLength (brand s)
         in if length (block4 s) \<ge> maxLength then s
            else s\<lparr>block4 := block4 s @ num\<rparr>)
      else s)"

text \<open>\<^verbatim>\<open>slice(0, -1)\<close> drops the last character.\<close>

definition handleKeypadDelete :: "CardState \<Rightarrow> CardState" where
  "handleKeypadDelete s =
     (if activeBlock s = Block3 then s\<lparr>block3 := butlast (block3 s)\<rparr>
      else if activeBlock s = Block4 then
        (if length (block4 s) > 0 then s\<lparr>block4 := butlast (block4 s)\<rparr>
         else s\<lparr>activeBlock := Block3\<rparr>)
      else s)"

subsection \<open>Effects and the BIN check\<close>

text \<open>
  The widget between two events: the state, the state of the previous render (an effect
  runs after a render when one of its dependencies differs from the previous render's),
  and the arguments of the calls of \<^verbatim>\<open>onBinCheck\<close> whose promise is not settled yet.
\<close>

record Widget =
  state :: CardState
  rendered :: CardState
  inFlight :: "jsstring list"

definition initialWidget :: Widget where
  "initialWidget = \<lparr>state = initialState, rendered = initialState, inFlight = []\<rparr>"

text \<open>
  One render and its effects, in the order of the source: validity (dependency
  \<^verbatim>\<open>fullCardNumber\<close>), keypad display (\<^verbatim>\<open>block3, block4, isFrontComplete\<close>), BIN check
  (\<^verbatim>\<open>isFrontComplete, frontPart, onBinCheck, binCheckComplete, binCheckLoading\<close>; the
  prop is taken to keep its identity). Every effect reads the state \<open>s\<close> of this render.
  The BIN check effect calls \<^verbatim>\<open>onBinCheck(frontPart)\<close>.
\<close>

definition runEffects :: "CardInputProps \<Rightarrow> Widget \<Rightarrow> Widget" where
  "runEffects props w =
     (let s = state w; p = rendered w;
          validityDeps = (fullCardNumber s \<noteq> fullCardNumber p);
          keypadDeps = ((block3 s, block4 s, isFrontComplete s)
                         \<noteq> (block3 p, block4 p, isFrontComplete p));
          binDeps = ((isFrontComplete s, frontPart s, binCheckComplete s, binCheckLoading s)
                      \<noteq> (isFrontComplete p, frontPart p, binCheckComplete p, binCheckLoading p));
          s1 = (if validityDeps
                then s\<lparr>isValid := (if length (fullCardNumber s) \<ge> 13
                                    then validateCardNumber (fullCardNumber s) else False)\<rparr>
                else s);
          s2 = (if keypadDeps \<and> isFrontComplete s \<and> (block3 s \<noteq> [] \<or> block4 s \<noteq> [])
                then s1\<lparr>showKeypad := True\<rparr> else s1);
          request = (binDeps \<and> isFrontComplete s \<and> onBinCheck props
                      \<and> \<not> binCheckComplete s \<and> \<not> binCheckLoading s);
          s3 = (if request then s2\<lparr>binCheckLoading := True\<rparr> else s2)
      in \<lparr>state = s3, rendered = s,
          inFlight = (if request then inFlight w @ [frontPart s] else inFlight w)\<rparr>)"

text \<open>The renders after an event: a second pass sees what the effects of the first one
  set; a third one finds nothing changed (lemma \<open>runEffects_settled\<close>).\<close>

definition settle :: "CardInputProps \<Rightarrow> Widget \<Rightarrow> Widget" where
  "settle props w = runEffects props (runEffects props w)"

text \<open>The continuations of the promise: \<^verbatim>\<open>then\<close> and \<^verbatim>\<open>catch\<close>.\<close>

definition binCheckThen :: "CardState \<Rightarrow> CardState" where
  "binCheckThen s = s\<lparr>binCheckComplete := True, binCheckLoading := False\<rparr>"

definition binCheckCatch :: "CardState \<Rightarrow> CardState" where
  "binCheckCatch s = s\<lparr>binCheckLoading := False\<rparr>"

text \<open>
  The events: a change of the input, a press of a keypad button (the keypad is rendered
  only when \<^verbatim>\<open>showKeypad && isFrontComplete && binCheckComplete\<close>, and a number button is
  disabled while its block is), and the settling of the \<open>i\<close>-th promise in flight.
\<close>

datatype Event =
  FrontChange jsstring "nat option"
| KeypadNumber jsstring
| KeypadDelete
| BinCheckResolved nat
| BinCheckRejected nat

definition keypadRendered :: "CardState \<Rightarrow> bool" where
  "keypadRendered s = (showKeypad s \<and> isFrontComplete s \<and> binCheckComplete s)"

definition numberDisabled :: "CardState \<Rightarrow> bool" where
  "numberDisabled s =
     ((activeBlock s = Block3 \<and> \<not> isBlock3Enabled s)
      \<or> (activeBlock s = Block4 \<and> \<not> isBlock4Enabled s))"

fun dispatch :: "CardInputProps \<Rightarrow> Event \<Rightarrow> Widget \<Rightarrow> Widget" where
  "dispatch props (FrontChange v selectionStart) w =
     w\<lparr>state := handleFrontChange props v selectionStart (state w)\<rparr>"
| "dispatch props (KeypadNumber num) w =
     (if keypadRendered (state w) \<and> \<not> numberDisabled (state w)
      then w\<lparr>state := handleKeypadNumber num (state w)\<rparr> else w)"
| "dispatch props KeypadDelete w =
     (if keypadRendered (state w) then w\<lparr>state := handleKeypadDelete (state w)\<rparr> else w)"
| "dispatch props (BinCheckResolved i) w =
     (if i < length (inFlight w)
      then w\<lparr>state := binCheckThen (state w),
             inFlight := take i (inFlight w) @ drop (Suc i) (inFlight w)\<rparr>
      else w)"
| "dispatch props (BinCheckRejected i) w =
     (if i < length (inFlight w)
      then w\<lparr>state := binCheckCatch (state w),
             inFlight := take i (inFlight w) @ drop (Suc i) (inFlight w)\<rparr>
      else w)"

definition step :: "CardInputProps \<Rightarrow> Widget \<Rightarrow> Event \<Rightarrow> Widget" where
  "step props w ev = settle props (dispatch props ev w)"

definition run :: "CardInputProps \<Rightarrow> Event list \<Rightarrow> Widget \<Rightarrow> Widget" where
  "run props evs w = foldl (step props) w evs"

section \<open>The specification's words\<close>

text \<open>
  The Luhn checksum as the specification words it: counting from the rightmost digit
  (position 0), every second digit is doubled, 9 is subtracted when the doubled value
  exceeds 9, and all the resulting digits are summed.
\<close>

definition luhn_digit :: "nat \<Rightarrow> nat \<Rightarrow> nat" where
  "luhn_digit k d = (if odd k then (if 2 * d > 9 then 2 * d - 9 else 2 * d) else d)"

definition luhn_checksum :: "nat list \<Rightarrow> nat" where
  "luhn_checksum ds = sum_list (map (\<lambda>(k, d). luhn_digit k d) (enumerate 0 (rev ds)))"

text \<open>The values of the digits of a string, its other characters removed.\<close>

definition digit_values :: "jsstring \<Rightarrow> nat list" where
  "digit_values v = map (\<lambda>c. c - of_char CHR ''0'') (filter is_digit v)"

text \<open>
  The value of the first \<open>k\<close> digits of a digit string, when it has that many, and the
  brand prefix ranges as the specification words them: mastercard is a two-digit prefix
  in 51 to 55 or a four-digit prefix in 2221 to 2720.
\<close>

definition prefix_value :: "nat \<Rightarrow> jsstring \<Rightarrow> nat option" where
  "prefix_value k s =
     (if k \<le> length s then Some (foldl (\<lambda>a c. 10 * a + (c - of_char CHR ''0'')) 0 (take k s))
      else None)"

definition in_prefix_range :: "nat \<Rightarrow> nat \<Rightarrow> nat \<Rightarrow> jsstring \<Rightarrow> bool" where
  "in_prefix_range k lo hi s =
     (case prefix_value k s of None \<Rightarrow> False | Some v \<Rightarrow> lo \<le> v \<and> v \<le> hi)"

definition mastercard_spec :: "jsstring \<Rightarrow> bool" where
  "mastercard_spec s = (in_prefix_range 2 51 55 s \<or> in_prefix_range 4 2221 2720 s)"

text \<open>
  The display value as the specification words it: a keypad segment with any digits is
  one mask character for each digit and then the unfilled part of its template, and the
  three display strings are joined with single spaces, empty segments left out.
\<close>

definition renderSegment_spec :: "jsstring \<Rightarrow> jsstring \<Rightarrow> jsstring" where
  "renderSegment_spec segment template =
     (if segment = [] then []
      else replicate (length segment) BULLET @ drop (length segment) template)"

definition renderDisplayValue_spec :: "CardState \<Rightarrow> jsstring" where
  "renderDisplayValue_spec s =
     join [SP] (filter (\<lambda>p. p \<noteq> [])
       [formatCardNumber (frontPart s),
        renderSegment_spec (block3 s) (getBlockTemplate s Block3),
        renderSegment_spec (block4 s) (getBlockTemplate s Block4)])"

section \<open>Auxiliary definitions\<close>

text \<open>The body of \<open>luhn_loop\<close> as a recursion over the characters in the order the loop
  reads them; \<open>luhn_loop_list\<close> relates the two.\<close>

fun luhn_list :: "jsstring \<Rightarrow> jsnum \<Rightarrow> bool \<Rightarrow> jsnum" where
  "luhn_list [] sumv isEven = sumv"
| "luhn_list (c # cs) sumv isEven =
     luhn_list cs
       (num_plus sumv
          (if isEven
           then (if num_gt9 (num_times2 (parseInt c)) then num_minus9 (num_times2 (parseInt c))
                 else num_times2 (parseInt c))
           else parseInt c))
       (\<not> isEven)"

section \<open>Example states\<close>

text \<open>The props of the sample integration (App).\<close>

definition props0 :: CardInputProps where
  "props0 = \<lparr>resetBackOnFrontEdit = True, onBinCheck = True\<rparr>"

text \<open>A widget in which a ``4'' has been typed.\<close>

definition visa4 :: CardState where
  "visa4 = initialState\<lparr>frontPart := js ''4'', brand := visa, prevFrontPartRef := js ''4''\<rparr>"

text \<open>
  A run in which the front segment is edited while a BIN check is in flight: after
  \<^verbatim>\<open>41111111\<close> is entered the check is requested (\<open>stale_w1\<close>); then the last digit is
  deleted (\<open>stale_w2\<close>).
\<close>

definition stale_w1 :: Widget where
  "stale_w1 =
     (let s = initialState\<lparr>frontPart := js ''41111111'', brand := visa,
                cursorPosition := Some 9, showKeypad := True, binCheckLoading := True,
                prevFrontPartRef := js ''41111111''\<rparr>
      in \<lparr>state = s, rendered = s, inFlight = [js ''41111111'']\<rparr>)"

definition stale_w2 :: Widget where
  "stale_w2 =
     (let s = initialState\<lparr>frontPart := js ''4111111'', brand := visa,
                cursorPosition := Some 8, showKeypad := True, binCheckLoading := True,
                prevFrontPartRef := js ''4111111''\<rparr>
      in \<lparr>state = s, rendered = s, inFlight = [js ''41111111'']\<rparr>)"

text \<open>
  A verified widget with two digits in block 3, and the text of its input after the last
  digit of the front segment is deleted.
\<close>

definition reset_s0 :: CardState where
  "reset_s0 = initialState\<lparr>frontPart := js ''41111111'', block3 := js ''12'', brand := visa,
                cursorPosition := Some 9, showKeypad := True, binCheckComplete := True,
                prevFrontPartRef := js ''41111111''\<rparr>"

definition reset_input :: jsstring where
  "reset_input = js ''4111 111 '' @ [BULLET, BULLET] @ js ''34 1234''"

text \<open>A verified widget with one digit in block 3 and none in block 4.\<close>

definition display_s0 :: CardState where
  "display_s0 = initialState\<lparr>frontPart := js ''41111111'', block3 := js ''1'', brand := visa,
                  showKeypad := True, binCheckComplete := True,
                  prevFrontPartRef := js ''41111111''\<rparr>"

section \<open>Formatting and extracting\<close>

text \<open>The definitions that evaluate the utilities on a concrete string.\<close>

lemmas string_defs = js_def SP_def BULLET_def is_char_def in_range_def is_digit_def is_ws_def
  slice_def slice_from_def trim_def

lemmas util_defs = string_defs detectCardBrand_def patterns_def formatCardNumber_def
  cleanCardNumber_def

lemma is_digit_not_ws: "is_digit c \<Longrightarrow> \<not> is_ws c"
  by (auto simp: is_digit_def in_range_def is_ws_def)

lemma SP_is_ws: "is_ws SP"
  by (simp add: SP_def is_ws_def)

lemma SP_not_digit: "\<not> is_digit SP"
  by (simp add: SP_def is_digit_def in_range_def)

lemma filter_dropWhile_neg: "filter (\<lambda>c. \<not> P c) (dropWhile P xs) = filter (\<lambda>c. \<not> P c) xs"
  by (induction xs) auto

lemma filter_not_ws_trim: "filter (\<lambda>c. \<not> is_ws c) (trim s) = filter (\<lambda>c. \<not> is_ws c) s"
proof -
  have "filter (\<lambda>c. \<not> is_ws c) (trim s)
        = rev (filter (\<lambda>c. \<not> is_ws c) (dropWhile is_ws (rev (dropWhile is_ws s))))"
    by (simp add: trim_def rev_filter)
  also have "\<dots> = rev (filter (\<lambda>c. \<not> is_ws c) (rev (dropWhile is_ws s)))"
    by (simp only: filter_dropWhile_neg)
  also have "\<dots> = filter (\<lambda>c. \<not> is_ws c) (dropWhile is_ws s)"
    by (simp add: rev_filter)
  finally show ?thesis by (simp add: filter_dropWhile_neg)
qed

lemma filter_not_ws_group4: "filter (\<lambda>c. \<not> is_ws c) (group4 s) = filter (\<lambda>c. \<not> is_ws c) s"
  by (induction s rule: group4.induct) (auto simp: SP_is_ws)

lemma filter_take_drop: "filter P (take n xs) @ filter P (drop n xs) = filter P xs"
  by (metis append_take_drop_id filter_append)

lemma filter_not_ws_format:
  "filter (\<lambda>c. \<not> is_ws c) (formatCardNumber v) = filter (\<lambda>c. \<not> is_ws c) v"
proof -
  let ?f = "filter (\<lambda>c. \<not> is_ws c)"
  let ?c = "?f v"
  have id: "?f ?c = ?c" by simp
  have a: "?f (take 4 ?c @ [SP] @ drop 4 ?c) = ?c"
    using filter_take_drop[of "\<lambda>c. \<not> is_ws c" 4 ?c] by (simp add: SP_is_ws)
  have "take 6 (drop 4 ?c) @ drop 10 ?c = drop 4 ?c"
    using append_take_drop_id[of 6 "drop 4 ?c"] by (simp add: add.commute)
  then have "take 4 ?c @ take 6 (drop 4 ?c) @ drop 10 ?c = ?c" by simp
  then have "?f (take 4 ?c @ take 6 (drop 4 ?c) @ drop 10 ?c) = ?c" 
    using id by simp
  then have b: "?f (take 4 ?c @ [SP] @ take 6 (drop 4 ?c) @ [SP] @ drop 10 ?c) = ?c"
    by (simp add: SP_is_ws)
  show ?thesis
    using a b
    by (simp add: formatCardNumber_def Let_def slice_def slice_from_def
        filter_not_ws_trim filter_not_ws_group4)
qed

lemma formatCardNumber_cong:
  "filter (\<lambda>c. \<not> is_ws c) a = filter (\<lambda>c. \<not> is_ws c) b \<Longrightarrow> formatCardNumber a = formatCardNumber b"
  by (simp add: formatCardNumber_def)

lemma filter_digit_not_ws: "filter is_digit (filter (\<lambda>c. \<not> is_ws c) v) = filter is_digit v"
  by (induction v) (auto simp: is_digit_not_ws)

lemma cleanCardNumber_format: "cleanCardNumber (formatCardNumber v) = cleanCardNumber v"
proof -
  have "cleanCardNumber (formatCardNumber v)
        = filter is_digit (filter (\<lambda>c. \<not> is_ws c) (formatCardNumber v))"
    by (simp only: cleanCardNumber_def filter_digit_not_ws)
  also have "\<dots> = filter is_digit (filter (\<lambda>c. \<not> is_ws c) v)"
    by (simp only: filter_not_ws_format)
  finally show ?thesis by (simp only: cleanCardNumber_def filter_digit_not_ws)
qed


text \<open>
  Claim C10: \<open>formatCardNumber\<close> is idempotent on every string. It reads its argument
  only through the string without white space, and what it returns is that string with
  spaces put in.
\<close>

theorem formatCardNumber_idempotent:
  "formatCardNumber (formatCardNumber s) = formatCardNumber s"
  by (rule formatCardNumber_cong) (rule filter_not_ws_format)

theorem formatCardNumber_idempotent_witness:
  "formatCardNumber (js '' 4242 x 424242'') = js ''4242 x4242 42''
   \<and> formatCardNumber (formatCardNumber (js '' 4242 x 424242'')) = js ''4242 x4242 42''"
proof -
  have v: "formatCardNumber (js '' 4242 x 424242'') = js ''4242 x4242 42''"
    by (simp add: util_defs)
  show ?thesis
    using formatCardNumber_idempotent [of "js '' 4242 x 424242''"] v by simp
qed

text \<open>
  Claim C5: for every string \<open>d\<close> of digits only, the digits extracted from the formatted
  display of \<open>d\<close> are \<open>d\<close>.
\<close>

theorem format_clean_roundtrip:
  assumes "\<forall>c \<in> set d. is_digit c"
  shows "cleanCardNumber (formatCardNumber d) = d"
  using assms cleanCardNumber_format [of d] by (simp add: cleanCardNumber_def filter_id_conv)

theorem format_clean_roundtrip_witness:
  "cleanCardNumber (formatCardNumber (js ''378282246310005'')) = js ''378282246310005''"
  using format_clean_roundtrip [of "js ''378282246310005''"]
  by (simp add: js_def is_digit_def in_range_def)

section \<open>The Luhn check\<close>

lemma luhn_loop_list:
  "n \<le> length cleaned \<Longrightarrow> luhn_loop cleaned n sumv e = luhn_list (rev (take n cleaned)) sumv e"
proof (induction n arbitrary: sumv e)
  case 0
  then show ?case by simp
next
  case (Suc n)
  then have "take (Suc n) cleaned = take n cleaned @ [cleaned ! n]"
    by (simp add: take_Suc_conv_app_nth)
  with Suc show ?case by (simp add: Let_def)
qed

lemma luhn_body:
  assumes "is_digit c" and "odd k = e"
  shows "num_plus (Some a)
          (if e
           then (if num_gt9 (num_times2 (parseInt c)) then num_minus9 (num_times2 (parseInt c))
                 else num_times2 (parseInt c))
           else parseInt c)
         = Some (a + luhn_digit k (c - of_char CHR ''0''))"
proof -
  define d where "d = c - of_char CHR ''0''"
  have p: "parseInt c = Some d" using assms(1) by (simp add: parseInt_def d_def)
  show ?thesis
    unfolding p d_def[symmetric] using assms(2)
    by (simp add: num_plus_def num_times2_def num_gt9_def num_minus9_def luhn_digit_def
        mult.commute)
qed

lemma luhn_list_digits:
  "\<forall>c \<in> set cs. is_digit c \<Longrightarrow> odd k = e \<Longrightarrow>
   luhn_list cs (Some a) e
   = Some (a + sum_list (map (\<lambda>(k, d). luhn_digit k d)
                 (enumerate k (map (\<lambda>c. c - of_char CHR ''0'') cs))))"
proof (induction cs arbitrary: a e k)
  case Nil
  then show ?case by simp
next
  case (Cons c cs)
  from Cons.prems have d: "is_digit c" and rest: "\<forall>c \<in> set cs. is_digit c" by simp_all
  have par: "odd (Suc k) = (\<not> e)" using Cons.prems(2) by simp
  have "luhn_list (c # cs) (Some a) e
        = luhn_list cs (Some (a + luhn_digit k (c - of_char CHR ''0''))) (\<not> e)"
    by (simp only: luhn_list.simps luhn_body[OF d Cons.prems(2)])
  also have "\<dots> = Some (a + luhn_digit k (c - of_char CHR ''0'')
                 + sum_list (map (\<lambda>(k, d). luhn_digit k d)
                     (enumerate (Suc k) (map (\<lambda>c. c - of_char CHR ''0'') cs))))"
    by (rule Cons.IH[OF rest par])
  finally show ?case by (simp add: add.assoc)
qed

lemma luhn_loop_checksum:
  assumes "\<forall>c \<in> set cleaned. is_digit c"
  shows "luhn_loop cleaned (length cleaned) (Some 0) False
         = Some (luhn_checksum (map (\<lambda>c. c - of_char CHR ''0'') cleaned))"
proof -
  have "\<forall>c \<in> set (rev cleaned). is_digit c" using assms by simp
  then have "luhn_list (rev cleaned) (Some 0) False
    = Some (0 + sum_list (map (\<lambda>(k, d). luhn_digit k d)
                 (enumerate 0 (map (\<lambda>c. c - of_char CHR ''0'') (rev cleaned)))))"
    by (rule luhn_list_digits) simp
  then show ?thesis
    by (simp add: luhn_loop_list luhn_checksum_def rev_map)
qed


text \<open>
  Claim C4: \<open>validateCardNumber\<close> returns a boolean on every string (it is a total
  function, and the NaN of \<open>parseInt\<close> never reaches the sum); the result is false when
  the string has fewer than 13 or more than 19 digits, and otherwise it is true exactly
  when the Luhn checksum of the digits is 0 modulo 10.
\<close>

theorem validateCardNumber_luhn:
  "validateCardNumber number
   = (13 \<le> length (digit_values number) \<and> length (digit_values number) \<le> 19
      \<and> luhn_checksum (digit_values number) mod 10 = 0)"
proof -
  have "\<forall>c \<in> set (cleanCardNumber number). is_digit c"
    by (simp add: cleanCardNumber_def)
  from luhn_loop_checksum [OF this] show ?thesis
    by (auto simp: validateCardNumber_def Let_def digit_values_def cleanCardNumber_def)
qed

theorem validateCardNumber_luhn_witness:
  "validateCardNumber (js ''4242 4242 4242 4242'')
   \<and> luhn_checksum (digit_values (js ''4242 4242 4242 4242'')) = 80
   \<and> \<not> validateCardNumber (js ''4242 4242 4242 4241'')
   \<and> luhn_checksum (digit_values (js ''4242 4242 4242 4241'')) = 79
   \<and> \<not> validateCardNumber (js ''4242 4242 4242'')
   \<and> luhn_checksum (digit_values (js ''4242 4242 4242'')) = 60"
proof -
  have a: "luhn_checksum (digit_values (js ''4242 4242 4242 4242'')) = 80"
    by code_simp
  have la: "length (digit_values (js ''4242 4242 4242 4242'')) = 16"
    by code_simp
  have b: "luhn_checksum (digit_values (js ''4242 4242 4242 4241'')) = 79"
    by code_simp
  have lb: "length (digit_values (js ''4242 4242 4242 4241'')) = 16"
    by code_simp
  have c: "luhn_checksum (digit_values (js ''4242 4242 4242'')) = 60"
    by code_simp
  have lc: "length (digit_values (js ''4242 4242 4242'')) = 12"
    by code_simp
  show ?thesis
    using validateCardNumber_luhn [of "js ''4242 4242 4242 4242''"]
      validateCardNumber_luhn [of "js ''4242 4242 4242 4241''"]
      validateCardNumber_luhn [of "js ''4242 4242 4242''"]
    by (simp add: a la b lb c lc)
qed

section \<open>The caret\<close>

lemma cursor_loop_passed:
  "n < dc \<Longrightarrow> cursor_loop cs n i dc = 0"
  by (induction cs arbitrary: i dc) (auto simp: Let_def)

lemma cursor_loop_found:
  "dc < n \<Longrightarrow> n - dc \<le> length (filter (\<lambda>c. c \<noteq> SP) cs) \<Longrightarrow>
   \<exists>k < length cs. cursor_loop cs n i dc = i + k + 1
      \<and> length (filter (\<lambda>c. c \<noteq> SP) (take (k + 1) cs)) = n - dc \<and> cs ! k \<noteq> SP"
proof (induction cs arbitrary: i dc)
  case Nil
  then show ?case by simp
next
  case (Cons c cs)
  show ?case
  proof (cases "c = SP")
    case True
    with Cons.prems have le: "n - dc \<le> length (filter (\<lambda>c. c \<noteq> SP) cs)" by simp
    from Cons.IH[OF Cons.prems(1) le, of "i + 1"] obtain k where
      k: "k < length cs" "cursor_loop cs n (i + 1) dc = i + 1 + k + 1"
         "length (filter (\<lambda>c. c \<noteq> SP) (take (k + 1) cs)) = n - dc" "cs ! k \<noteq> SP"
      by blast
    have "cursor_loop (c # cs) n i dc = i + Suc k + 1"
      using True Cons.prems(1) k(2) by (simp add: Let_def)
    moreover have "length (filter (\<lambda>c. c \<noteq> SP) (take (Suc k + 1) (c # cs))) = n - dc"
      using True k(3) by simp
    moreover have "(c # cs) ! Suc k \<noteq> SP" using k(4) by simp
    moreover have "Suc k < length (c # cs)" using k(1) by simp
    ultimately show ?thesis by blast
  next
    case False
    show ?thesis
    proof (cases "dc + 1 = n")
      case True
      have "cursor_loop (c # cs) n i dc = i + 0 + 1"
        using False True by (simp add: Let_def)
      moreover have "length (filter (\<lambda>c. c \<noteq> SP) (take (0 + 1) (c # cs))) = n - dc"
        using False True by auto
      moreover have "(c # cs) ! 0 \<noteq> SP" using False by simp
      moreover have "0 < length (c # cs)" by simp
      ultimately show ?thesis by blast
    next
      case ne: False
      with Cons.prems(1) have lt: "dc + 1 < n" by simp
      from Cons.prems(2) False have le: "n - (dc + 1) \<le> length (filter (\<lambda>c. c \<noteq> SP) cs)"
        by simp
      from Cons.IH[OF lt le, of "i + 1"] obtain k where
        k: "k < length cs" "cursor_loop cs n (i + 1) (dc + 1) = i + 1 + k + 1"
           "length (filter (\<lambda>c. c \<noteq> SP) (take (k + 1) cs)) = n - (dc + 1)" "cs ! k \<noteq> SP"
        by blast
      have "cursor_loop (c # cs) n i dc = i + Suc k + 1"
        using False ne k(2) by (simp add: Let_def)
      moreover have "length (filter (\<lambda>c. c \<noteq> SP) (take (Suc k + 1) (c # cs))) = n - dc"
        using False k(3) lt by simp
      moreover have "(c # cs) ! Suc k \<noteq> SP" using k(4) by simp
      moreover have "Suc k < length (c # cs)" using k(1) by simp
      ultimately show ?thesis by blast
    qed
  qed
qed

lemma calculateCursorPosition_zero:
  assumes "fv = [] \<or> hd fv \<noteq> SP"
  shows "calculateCursorPosition fv 0 = 0"
proof (cases fv)
  case Nil
  then show ?thesis by (simp add: calculateCursorPosition_def)
next
  case (Cons c cs)
  with assms have "c \<noteq> SP" by simp
  then show ?thesis
    using Cons cursor_loop_passed[of 0 1 cs 1]
    by (simp add: calculateCursorPosition_def Let_def)
qed

lemma calculateCursorPosition_pos:
  assumes "0 < n" and "n \<le> length (filter (\<lambda>c. c \<noteq> SP) fv)"
  shows "\<exists>p. calculateCursorPosition fv n = p \<and> 0 < p \<and> p \<le> length fv
           \<and> length (filter (\<lambda>c. c \<noteq> SP) (take p fv)) = n \<and> fv ! (p - 1) \<noteq> SP"
proof -
  from assms have le: "n - 0 \<le> length (filter (\<lambda>c. c \<noteq> SP) fv)" by simp
  from cursor_loop_found[OF assms(1) le, of 0] obtain k where
    "k < length fv" "cursor_loop fv n 0 0 = 0 + k + 1"
    "length (filter (\<lambda>c. c \<noteq> SP) (take (k + 1) fv)) = n - 0" "fv ! k \<noteq> SP"
    by blast
  then show ?thesis
    by (simp add: calculateCursorPosition_def)
qed

lemma set_group4: "set (group4 s) \<subseteq> insert SP (set s)"
  by (induction s rule: group4.induct) auto

lemma set_trim: "set (trim s) \<subseteq> set s"
proof -
  have "set (trim s) \<subseteq> set (dropWhile is_ws s)"
    unfolding trim_def using set_dropWhileD[of _ is_ws "rev (dropWhile is_ws s)"] by auto
  also have "\<dots> \<subseteq> set s" using set_dropWhileD[of _ is_ws s] by auto
  finally show ?thesis .
qed

lemma group4_Cons: "\<exists>ys. group4 (x # xs) = x # ys"
  by (cases "x # xs" rule: group4.cases) auto

lemma trim_Cons:
  assumes "\<not> is_ws x"
  shows "\<exists>zs. trim (x # ys) = x # zs"
proof -
  have t: "trim (x # ys) = rev (dropWhile is_ws (rev ys @ [x]))"
    using assms by (simp add: trim_def)
  have "dropWhile is_ws (rev ys @ [x]) = [x]
        \<or> dropWhile is_ws (rev ys @ [x]) = dropWhile is_ws (rev ys) @ [x]"
    using assms by (simp add: dropWhile_append)
  then show ?thesis
  proof
    assume "dropWhile is_ws (rev ys @ [x]) = [x]"
    with t show ?thesis by simp
  next
    assume "dropWhile is_ws (rev ys @ [x]) = dropWhile is_ws (rev ys) @ [x]"
    with t show ?thesis by simp
  qed
qed

lemma formatCardNumber_chars:
  assumes "\<forall>c \<in> set d. is_digit c"
  shows "\<forall>c \<in> set (formatCardNumber d). is_digit c \<or> c = SP"
proof -
  have cl: "filter (\<lambda>c. \<not> is_ws c) d = d"
    using assms by (simp add: filter_id_conv is_digit_not_ws)
  have g: "set (trim (group4 d)) \<subseteq> insert SP (set d)"
    using set_trim[of "group4 d"] set_group4[of d] by blast
  have t: "\<And>n c. c \<in> set (take n d) \<Longrightarrow> is_digit c"
          "\<And>n c. c \<in> set (drop n d) \<Longrightarrow> is_digit c"
          "\<And>n m c. c \<in> set (take n (drop m d)) \<Longrightarrow> is_digit c"
    using assms by (auto dest: in_set_takeD in_set_dropD)
  show ?thesis
    unfolding formatCardNumber_def Let_def cl slice_def slice_from_def
    using assms g t by (auto split: if_splits)
qed

lemma formatCardNumber_hd:
  assumes "\<forall>c \<in> set d. is_digit c"
  shows "formatCardNumber d = [] \<or> hd (formatCardNumber d) \<noteq> SP"
proof (cases d)
  case Nil
  then show ?thesis by (simp add: formatCardNumber_def Let_def trim_def)
next
  case (Cons x xs)
  have cl: "filter (\<lambda>c. \<not> is_ws c) d = d"
    using assms by (simp add: filter_id_conv is_digit_not_ws)
  from assms Cons have x: "is_digit x" by simp
  then have nsp: "x \<noteq> SP" using SP_not_digit by auto
  obtain ys where ys: "group4 (x # xs) = x # ys" using group4_Cons by blast
  obtain zs where zs: "trim (x # ys) = x # zs" using trim_Cons[OF is_digit_not_ws[OF x]] by blast
  show ?thesis
    unfolding formatCardNumber_def Let_def cl slice_def
    using Cons ys zs nsp by (auto split: if_splits)
qed

lemma nonspace_filter_digits:
  assumes "\<forall>c \<in> set xs. is_digit c \<or> c = SP"
  shows "filter (\<lambda>c. c \<noteq> SP) xs = filter is_digit xs"
  using assms SP_not_digit by (intro filter_cong) auto

lemma extract_digits: "\<forall>c \<in> set (extractFrontPartFromInput v b). is_digit c"
  by (simp add: extractFrontPartFromInput_def Let_def)

lemma adjust_digits:
  "\<forall>c \<in> set fp. is_digit c \<Longrightarrow> \<forall>c \<in> set (adjustFrontPartForBrandChange fp a b). is_digit c"
  by (auto simp: adjustFrontPartForBrandChange_def Let_def slice_def dest: in_set_takeD)

lemma handleFrontChange_committed:
  assumes "\<not> frontEditRejected v s"
  shows "cursorPosition (handleFrontChange props v sel s)
         = Some (calculateCursorPosition
                   (formatCardNumber (frontPart (handleFrontChange props v sel s)))
                   (digitsBeforeCursorOf v (case sel of None \<Rightarrow> 0 | Some p \<Rightarrow> p)))"
    and "\<forall>c \<in> set (frontPart (handleFrontChange props v sel s)). is_digit c"
  using assms extract_digits[of v "currentBrandOf s"]
    adjust_digits[OF extract_digits[of v "currentBrandOf s"]]
  by (auto simp: handleFrontChange_def frontEditRejected_def Let_def slice_def dest: in_set_takeD)


text \<open>
  Claim C8: for a committed front edit, with \<open>n\<close> the number of digits before the caret
  in the raw text and \<open>n\<close> at most the number of digits of the newly formatted front
  string, the reported caret position is just after the \<open>n\<close>-th digit of that string: the
  prefix up to the position holds exactly \<open>n\<close> digits and ends with a digit, and the
  position is 0 when \<open>n\<close> is 0.
\<close>

theorem caret_after_nth_digit:
  assumes "\<not> frontEditRejected v s"
    and "s' = handleFrontChange props v sel s"
    and "n = digitsBeforeCursorOf v (case sel of None \<Rightarrow> 0 | Some p \<Rightarrow> p)"
    and "n \<le> length (cleanCardNumber (formatCardNumber (frontPart s')))"
  shows "\<exists>p. cursorPosition s' = Some p
           \<and> p \<le> length (formatCardNumber (frontPart s'))
           \<and> length (cleanCardNumber (take p (formatCardNumber (frontPart s')))) = n
           \<and> (if n = 0 then p = 0
               else 0 < p \<and> is_digit (formatCardNumber (frontPart s') ! (p - 1)))"
proof -
  let ?F = "formatCardNumber (frontPart s')"
  have cur: "cursorPosition s' = Some (calculateCursorPosition ?F n)"
    and dig: "\<forall>c \<in> set (frontPart s'). is_digit c"
    using handleFrontChange_committed[OF assms(1), of props sel] assms(2,3) by simp_all
  have chars: "\<forall>c \<in> set ?F. is_digit c \<or> c = SP"
    by (rule formatCardNumber_chars[OF dig])
  have nsp: "\<And>xs. set xs \<subseteq> set ?F \<Longrightarrow> filter (\<lambda>c. c \<noteq> SP) xs = filter is_digit xs"
    using chars by (intro nonspace_filter_digits) blast
  show ?thesis
  proof (cases "n = 0")
    case True
    have "calculateCursorPosition ?F 0 = 0"
      using formatCardNumber_hd[OF dig] by (intro calculateCursorPosition_zero) simp
    with True cur show ?thesis by (simp add: cleanCardNumber_def)
  next
    case False
    then have pos: "0 < n" by simp
    have le: "n \<le> length (filter (\<lambda>c. c \<noteq> SP) ?F)"
      using assms(4) nsp[of ?F] by (simp add: cleanCardNumber_def)
    from calculateCursorPosition_pos[OF pos le] obtain p where
      p: "calculateCursorPosition ?F n = p" "0 < p" "p \<le> length ?F"
         "length (filter (\<lambda>c. c \<noteq> SP) (take p ?F)) = n" "?F ! (p - 1) \<noteq> SP"
      by blast
    have "set (take p ?F) \<subseteq> set ?F" by (rule set_take_subset)
    from nsp[OF this] p(4) have cnt: "length (cleanCardNumber (take p ?F)) = n"
      by (simp add: cleanCardNumber_def)
    have "?F ! (p - 1) \<in> set ?F" using p(2,3) by simp
    with chars p(5) have "is_digit (?F ! (p - 1))" by blast
    with False cur p(1,2,3) cnt show ?thesis by simp
  qed
qed

section \<open>Evaluating the handlers\<close>

lemma replicate_nines:
  "replicate 4 (x::nat) = [x, x, x, x]" "replicate 8 (x::nat) = [x, x, x, x, x, x, x, x]"
  by (simp_all add: numeral_eq_Suc)

lemma frontMaxFormatted:
  "length (formatCardNumber (replicate (getFrontMaxLength b) (of_char CHR ''9'')))
   = (if b = amex then 4 else 9)"
  by (simp add: getFrontMaxLength_def replicate_nines util_defs Let_def)

lemma bullet_not_digit: "\<not> is_digit BULLET"
  by (simp add: BULLET_def is_digit_def in_range_def)

lemma extractFrontPartFromInput_eq:
  "extractFrontPartFromInput v b = filter is_digit (take (if b = amex then 4 else 9) v)"
proof -
  have "\<And>xs. filter is_digit (filter (\<lambda>c. \<not> (c = BULLET \<or> is_ws c)) xs) = filter is_digit xs"
    using bullet_not_digit is_digit_not_ws by (auto intro!: filter_cong)
  then show ?thesis
    unfolding extractFrontPartFromInput_def Let_def frontMaxFormatted slice_def by simp
qed

lemma format_41111111: "formatCardNumber (js ''41111111'') = js ''4111 1111''"
  by (simp add: util_defs Let_def)

lemma format_4111111: "formatCardNumber (js ''4111111'') = js ''4111 111''"
  by (simp add: util_defs Let_def)

lemma detect_empty: "detectCardBrand [] = unknown"
  by (simp add: util_defs)

lemma detect_4111: "detectCardBrand (js ''41111111'') = visa" "detectCardBrand (js ''4111111'') = visa"
  by (simp_all add: util_defs)

lemma handleFrontChange_commit:
  assumes cb: "currentBrandOf s = cb"
    and cl: "extractFrontPartFromInput v cb = cl"
    and db: "detectCardBrand cl = db"
    and ok: "\<not> (db = cb \<and> length cl > getFrontMaxLength db)"
    and nf: "slice (if db \<noteq> cb then adjustFrontPartForBrandChange cl cb db else cl) 0
               (getFrontMaxLength db) = nf"
    and rs: "shouldResetBackBlocks props nf (prevFrontPartRef s) db (brand s)
                (block3 s \<noteq> [] \<or> block4 s \<noteq> []) = rs"
    and s1: "(if rs then resetBackBlocks s else s) = s1"
    and pos: "calculateCursorPosition (formatCardNumber nf)
                 (digitsBeforeCursorOf v (case sel of None \<Rightarrow> 0 | Some p \<Rightarrow> p)) = pos"
  shows "handleFrontChange props v sel s
         = (if \<not> rs \<and> length nf = getFrontMaxLength db \<and> db \<noteq> unknown
            then s1\<lparr>frontPart := nf, brand := db, prevFrontPartRef := nf, showKeypad := True,
                    cursorPosition := Some pos\<rparr>
            else s1\<lparr>frontPart := nf, brand := db, prevFrontPartRef := nf,
                    cursorPosition := Some pos\<rparr>)"
proof -
  have rej: "(\<not> db \<noteq> cb \<and> getFrontMaxLength db < length cl) = False"
    using ok by simp
  show ?thesis
    unfolding handleFrontChange_def Let_def cb cl db nf rs s1 pos rej if_False
    by (cases rs) simp_all
qed

lemma front_enter_all: "handleFrontChange props0 (js ''41111111'') (Some 8) initialState
   = initialState\<lparr>frontPart := js ''41111111'', brand := visa,
                cursorPosition := Some 9, showKeypad := True,
                prevFrontPartRef := js ''41111111''\<rparr>"
proof -
  have ex: "extractFrontPartFromInput (js ''41111111'') unknown = js ''41111111''"
    by (simp add: extractFrontPartFromInput_eq string_defs)
  have cur: "currentBrandOf initialState = unknown"
    by (simp add: currentBrandOf_def initialState_def detect_empty)
  have dg: "digitsBeforeCursorOf (js ''41111111'') 8 = 8"
    by (simp add: digitsBeforeCursorOf_def string_defs cleanCardNumber_def Let_def)
  have cc: "calculateCursorPosition (js ''4111 1111'') 8 = 9"
    by (simp add: calculateCursorPosition_def string_defs Let_def)
  have nf: "slice (if visa \<noteq> unknown then adjustFrontPartForBrandChange (js ''41111111'') unknown visa
                    else js ''41111111'') 0 (getFrontMaxLength visa) = js ''41111111''"
    by (simp add: getFrontMaxLength_def adjustFrontPartForBrandChange_def js_def slice_def)
  have rs: "shouldResetBackBlocks props0 (js ''41111111'') (prevFrontPartRef initialState) visa
              (brand initialState) (block3 initialState \<noteq> [] \<or> block4 initialState \<noteq> []) = False"
    by (simp add: shouldResetBackBlocks_def initialState_def)
  have pos: "calculateCursorPosition (formatCardNumber (js ''41111111''))
               (digitsBeforeCursorOf (js ''41111111'') (case Some 8 of None \<Rightarrow> 0 | Some p \<Rightarrow> p)) = 9"
    by (simp add: format_41111111 dg cc)
  have ok: "\<not> (visa = unknown \<and> length (js ''41111111'') > getFrontMaxLength visa)"
    by simp
  have s1: "(if False then resetBackBlocks initialState else initialState) = initialState"
    by simp
  note handleFrontChange_commit[OF cur ex detect_4111(1) ok nf rs s1 pos]
  then show ?thesis
    by (simp add: getFrontMaxLength_def js_def initialState_def)
qed

lemma runEffects_same: "rendered w = state w \<Longrightarrow> runEffects props w = w"
  by (cases w) (simp add: runEffects_def Let_def)

lemma runEffects_twice:
  "runEffects props (runEffects props w)
   = (runEffects props w)\<lparr>rendered := state (runEffects props w)\<rparr>"
proof -
  define w1 where "w1 = runEffects props w"
  have r1: "rendered w1 = state w" by (simp add: w1_def runEffects_def Let_def)
  have same: "frontPart (state w1) = frontPart (state w)" "block3 (state w1) = block3 (state w)"
    "block4 (state w1) = block4 (state w)" "brand (state w1) = brand (state w)"
    "binCheckComplete (state w1) = binCheckComplete (state w)"
    by (simp_all add: w1_def runEffects_def Let_def)
  have load: "binCheckLoading (state w1) \<noteq> binCheckLoading (state w) \<Longrightarrow> binCheckLoading (state w1)"
    by (auto simp: w1_def runEffects_def Let_def split: if_splits)
  have "state (runEffects props w1) = state w1"
    using load
    by (auto simp: runEffects_def[of props w1] Let_def r1 same isFrontComplete_def
        fullCardNumber_def)
  moreover have "rendered (runEffects props w1) = state w1"
    by (simp add: runEffects_def Let_def)
  moreover have "inFlight (runEffects props w1) = inFlight w1"
    using load
    by (auto simp: runEffects_def[of props w1] Let_def r1 same isFrontComplete_def)
  ultimately have "runEffects props w1 = w1\<lparr>rendered := state w1\<rparr>"
    by (cases w1, cases "runEffects props w1") simp
  then show ?thesis by (simp add: w1_def)
qed

lemma settle_eq:
  "settle props w = (runEffects props w)\<lparr>rendered := state (runEffects props w)\<rparr>"
  by (simp only: settle_def runEffects_twice)

lemma runEffects_settled: "runEffects props (settle props w) = settle props w"
  unfolding settle_eq by (rule runEffects_same) simp

lemma step_enter_all: "step props0 initialWidget (FrontChange (js ''41111111'') (Some 8)) = stale_w1"
proof -
  have len: "length (js ''41111111'') = 8" by (simp add: js_def)
  have ne: "js ''41111111'' \<noteq> []" by (simp add: js_def)
  have r: "runEffects props0 \<lparr>state = initialState\<lparr>frontPart := js ''41111111'', brand := visa,
                cursorPosition := Some 9, showKeypad := True,
                prevFrontPartRef := js ''41111111''\<rparr>, rendered = initialState, inFlight = []\<rparr>
     = \<lparr>state = initialState\<lparr>frontPart := js ''41111111'', brand := visa,
                cursorPosition := Some 9, showKeypad := True, binCheckLoading := True,
                prevFrontPartRef := js ''41111111''\<rparr>, 
         rendered = initialState\<lparr>frontPart := js ''41111111'', brand := visa,
                cursorPosition := Some 9, showKeypad := True,
                prevFrontPartRef := js ''41111111''\<rparr>, inFlight = [js ''41111111'']\<rparr>"
    by (simp add: runEffects_def Let_def initialState_def isFrontComplete_def fullCardNumber_def
        getFrontMaxLength_def props0_def len ne)
  have d: "dispatch props0 (FrontChange (js ''41111111'') (Some 8)) initialWidget
    = \<lparr>state = initialState\<lparr>frontPart := js ''41111111'', brand := visa,
                cursorPosition := Some 9, showKeypad := True,
                prevFrontPartRef := js ''41111111''\<rparr>, rendered = initialState, inFlight = []\<rparr>"
    by (simp add: front_enter_all initialWidget_def)
  show ?thesis
    unfolding step_def settle_eq d r
    by (simp add: stale_w1_def Let_def)
qed

lemma front_delete_last: "handleFrontChange props0 (js ''4111 111'') (Some 8) (state stale_w1) = state stale_w2"
proof -
  have cur: "currentBrandOf (state stale_w1) = visa"
    by (simp add: currentBrandOf_def stale_w1_def Let_def)
  have ex: "extractFrontPartFromInput (js ''4111 111'') visa = js ''4111111''"
    by (simp add: extractFrontPartFromInput_eq string_defs)
  have ok: "\<not> (visa = visa \<and> length (js ''4111111'') > getFrontMaxLength visa)"
    by (simp add: js_def getFrontMaxLength_def)
  have nf: "slice (if visa \<noteq> visa then adjustFrontPartForBrandChange (js ''4111111'') visa visa
                    else js ''4111111'') 0 (getFrontMaxLength visa) = js ''4111111''"
    by (simp add: getFrontMaxLength_def js_def slice_def)
  have rs: "shouldResetBackBlocks props0 (js ''4111111'') (prevFrontPartRef (state stale_w1)) visa
              (brand (state stale_w1))
              (block3 (state stale_w1) \<noteq> [] \<or> block4 (state stale_w1) \<noteq> []) = False"
    by (simp add: shouldResetBackBlocks_def stale_w1_def Let_def initialState_def)
  have s1: "(if False then resetBackBlocks (state stale_w1) else state stale_w1) = state stale_w1"
    by simp
  have dg: "digitsBeforeCursorOf (js ''4111 111'') 8 = 7"
    by (simp add: digitsBeforeCursorOf_def string_defs cleanCardNumber_def Let_def)
  have cc: "calculateCursorPosition (js ''4111 111'') 7 = 8"
    by (simp add: calculateCursorPosition_def string_defs Let_def)
  have pos: "calculateCursorPosition (formatCardNumber (js ''4111111''))
               (digitsBeforeCursorOf (js ''4111 111'') (case Some 8 of None \<Rightarrow> 0 | Some p \<Rightarrow> p)) = 8"
    by (simp add: format_4111111 dg cc)
  note handleFrontChange_commit[OF cur ex detect_4111(2) ok nf rs s1 pos]
  then show ?thesis
    by (simp add: getFrontMaxLength_def js_def stale_w1_def stale_w2_def Let_def initialState_def)
qed

lemma step_delete_last: "step props0 stale_w1 (FrontChange (js ''4111 111'') (Some 8)) = stale_w2"
proof -
  have len: "length (js ''4111111'') = 7" by (simp add: js_def)
  have "runEffects props0 \<lparr>state = state stale_w2, rendered = state stale_w1,
          inFlight = [js ''41111111'']\<rparr>
        = \<lparr>state = state stale_w2, rendered = state stale_w2, inFlight = [js ''41111111'']\<rparr>"
    by (simp add: runEffects_def Let_def stale_w2_def initialState_def isFrontComplete_def
        fullCardNumber_def getFrontMaxLength_def len)
  moreover have "dispatch props0 (FrontChange (js ''4111 111'') (Some 8)) stale_w1
    = \<lparr>state = state stale_w2, rendered = state stale_w1, inFlight = [js ''41111111'']\<rparr>"
    by (simp add: front_delete_last) (simp add: stale_w1_def Let_def)
  ultimately show ?thesis
    unfolding step_def settle_eq
    by (simp add: stale_w2_def Let_def)
qed

lemma front_delete_last_reset: "handleFrontChange props0 reset_input (Some 8) reset_s0
   = initialState\<lparr>frontPart := js ''4111111'', brand := visa, cursorPosition := Some 8,
        prevFrontPartRef := js ''4111111''\<rparr>"
proof -
  have cur: "currentBrandOf reset_s0 = visa"
    by (simp add: currentBrandOf_def reset_s0_def)
  have ex: "extractFrontPartFromInput reset_input visa = js ''4111111''"
    by (simp add: extractFrontPartFromInput_eq reset_input_def string_defs)
  have ok: "\<not> (visa = visa \<and> length (js ''4111111'') > getFrontMaxLength visa)"
    by (simp add: js_def getFrontMaxLength_def)
  have nf: "slice (if visa \<noteq> visa then adjustFrontPartForBrandChange (js ''4111111'') visa visa
                    else js ''4111111'') 0 (getFrontMaxLength visa) = js ''4111111''"
    by (simp add: getFrontMaxLength_def js_def slice_def)
  have rs: "shouldResetBackBlocks props0 (js ''4111111'') (prevFrontPartRef reset_s0) visa
              (brand reset_s0) (block3 reset_s0 \<noteq> [] \<or> block4 reset_s0 \<noteq> []) = True"
    by (simp add: shouldResetBackBlocks_def reset_s0_def props0_def js_def)
  have s1: "(if True then resetBackBlocks reset_s0 else reset_s0) = resetBackBlocks reset_s0"
    by simp
  have dg: "digitsBeforeCursorOf reset_input 8 = 7"
    by (simp add: digitsBeforeCursorOf_def reset_input_def string_defs cleanCardNumber_def Let_def)
  have cc: "calculateCursorPosition (js ''4111 111'') 7 = 8"
    by (simp add: calculateCursorPosition_def string_defs Let_def)
  have pos: "calculateCursorPosition (formatCardNumber (js ''4111111''))
               (digitsBeforeCursorOf reset_input (case Some 8 of None \<Rightarrow> 0 | Some p \<Rightarrow> p)) = 8"
    by (simp add: format_4111111 dg cc)
  note handleFrontChange_commit[OF cur ex detect_4111(2) ok nf rs s1 pos]
  then show ?thesis
    by (simp add: resetBackBlocks_def reset_s0_def initialState_def)
qed

theorem caret_after_nth_digit_witness:
  "cursorPosition (handleFrontChange props0 (js ''4111 111'') (Some 8) (state stale_w1)) = Some 8
   \<and> formatCardNumber (frontPart (handleFrontChange props0 (js ''4111 111'') (Some 8) (state stale_w1)))
       = js ''4111 111''
   \<and> (\<exists>p. cursorPosition (handleFrontChange props0 (js ''4111 111'') (Some 8) (state stale_w1)) = Some p
          \<and> p \<le> length (js ''4111 111'')
          \<and> length (cleanCardNumber (take p (js ''4111 111''))) = 7
          \<and> 0 < p \<and> is_digit (js ''4111 111'' ! (p - 1)))"
proof -
  let ?s' = "handleFrontChange props0 (js ''4111 111'') (Some 8) (state stale_w1)"
  have ex: "extractFrontPartFromInput (js ''4111 111'') visa = js ''4111111''"
    by (simp add: extractFrontPartFromInput_eq string_defs)
  have cur: "currentBrandOf (state stale_w1) = visa"
    by (simp add: currentBrandOf_def stale_w1_def Let_def)
  have a: "\<not> frontEditRejected (js ''4111 111'') (state stale_w1)"
    unfolding frontEditRejected_def Let_def cur ex detect_4111
    by (simp add: getFrontMaxLength_def js_def)
  have fp: "frontPart ?s' = js ''4111111''" and cp: "cursorPosition ?s' = Some 8"
    by (simp_all add: front_delete_last stale_w2_def Let_def)
  have c: "7 = digitsBeforeCursorOf (js ''4111 111'') (case Some 8 of None \<Rightarrow> 0 | Some p \<Rightarrow> p)"
    by (simp add: digitsBeforeCursorOf_def string_defs cleanCardNumber_def Let_def)
  have d: "7 \<le> length (cleanCardNumber (formatCardNumber (frontPart ?s')))"
    by (simp add: fp cleanCardNumber_format) (simp add: cleanCardNumber_def string_defs)
  show ?thesis
    using caret_after_nth_digit [OF a refl c d] by (simp add: fp format_4111111 cp)
qed

section \<open>The front input\<close>

text \<open>For amex the test of step 5 never holds: the front part is extracted from the first
  four characters only.\<close>

lemma amex_never_rejected:
  assumes "currentBrandOf s = amex"
  shows "\<not> frontEditRejected v s"
proof -
  have "length (extractFrontPartFromInput v amex) \<le> 4"
    using length_filter_le [of is_digit "take 4 v"] by (simp add: extractFrontPartFromInput_eq)
  then show ?thesis
    using assms by (auto simp: frontEditRejected_def Let_def getFrontMaxLength_def)
qed

text \<open>
  Claim C7: when a front edit leaves the detected brand as it was and the extracted
  digits are more than that brand's front capacity, the handler returns the state as it
  was: no field changes, the caret position included.
\<close>

theorem overflow_rejected:
  assumes "detectCardBrand (extractFrontPartFromInput v (currentBrandOf s)) = currentBrandOf s"
    and "length (extractFrontPartFromInput v (currentBrandOf s)) > getFrontMaxLength (currentBrandOf s)"
  shows "handleFrontChange props v sel s = s"
  using assms by (simp add: handleFrontChange_def Let_def)

theorem overflow_rejected_witness:
  "frontEditRejected (js ''411111111'') visa4
   \<and> handleFrontChange props0 (js ''411111111'') (Some 9) visa4 = visa4"
proof -
  have cur: "currentBrandOf visa4 = visa"
    by (simp add: visa4_def currentBrandOf_def initialState_def)
  have ex: "extractFrontPartFromInput (js ''411111111'') visa = js ''411111111''"
    by (simp add: extractFrontPartFromInput_eq string_defs)
  have det: "detectCardBrand (js ''411111111'') = visa"
    by (simp add: util_defs)
  have len: "length (js ''411111111'') > getFrontMaxLength visa"
    by (simp add: js_def getFrontMaxLength_def)
  have rej: "frontEditRejected (js ''411111111'') visa4"
    using len by (simp add: frontEditRejected_def cur ex det)
  show ?thesis
    using overflow_rejected [of "js ''411111111''" visa4 props0 "Some 9"] rej len
    by (simp add: cur ex det)
qed

text \<open>The ref \<open>prevFrontPartRef\<close> holds the front value in every state the widget
  reaches.\<close>

lemma handleFrontChange_prevFrontPartRef:
  "prevFrontPartRef s = frontPart s \<Longrightarrow>
   prevFrontPartRef (handleFrontChange props v sel s) = frontPart (handleFrontChange props v sel s)"
  by (simp add: handleFrontChange_def Let_def resetBackBlocks_def)

lemma runEffects_fronts:
  "frontPart (state (runEffects props w)) = frontPart (state w)"
  "prevFrontPartRef (state (runEffects props w)) = prevFrontPartRef (state w)"
  by (simp_all add: runEffects_def Let_def)

lemma dispatch_prevFrontPartRef:
  "prevFrontPartRef (state w) = frontPart (state w) \<Longrightarrow>
   prevFrontPartRef (state (dispatch props ev w)) = frontPart (state (dispatch props ev w))"
  by (cases ev)
    (simp_all add: handleFrontChange_prevFrontPartRef handleKeypadNumber_def
      handleKeypadDelete_def binCheckThen_def binCheckCatch_def Let_def)

lemma step_prevFrontPartRef:
  "prevFrontPartRef (state w) = frontPart (state w) \<Longrightarrow>
   prevFrontPartRef (state (step props w ev)) = frontPart (state (step props w ev))"
  by (simp add: step_def settle_def runEffects_fronts dispatch_prevFrontPartRef)

lemma run_prevFrontPartRef:
  "prevFrontPartRef (state (run props evs initialWidget))
   = frontPart (state (run props evs initialWidget))"
proof -
  have "prevFrontPartRef (state w) = frontPart (state w) \<Longrightarrow>
        prevFrontPartRef (state (foldl (step props) w evs))
        = frontPart (state (foldl (step props) w evs))" for w
    by (induction evs arbitrary: w) (simp_all add: step_prevFrontPartRef)
  then show ?thesis
    by (simp add: run_def initialWidget_def initialState_def)
qed

text \<open>
  Claim C3: with \<open>resetBackOnFrontEdit\<close> true, a front edit that changes the front value
  or the brand while a keypad segment holds digits clears both keypad segments, makes
  block 3 the active one, hides the keypad and sets \<open>binCheckComplete\<close> to false.
  (\<open>prevFrontPartRef\<close> is the front value in every state the widget reaches, lemma
  \<open>run_prevFrontPartRef\<close>; \<open>binCheckLoading\<close> is left as it was.)
\<close>

theorem front_edit_resets_back:
  assumes "resetBackOnFrontEdit props"
    and "prevFrontPartRef s = frontPart s"
    and "block3 s \<noteq> [] \<or> block4 s \<noteq> []"
    and "s' = handleFrontChange props v sel s"
    and "frontPart s' \<noteq> frontPart s \<or> brand s' \<noteq> brand s"
  shows "block3 s' = [] \<and> block4 s' = [] \<and> activeBlock s' = Block3
         \<and> \<not> showKeypad s' \<and> \<not> binCheckComplete s'"
  using assms
  by (auto simp: handleFrontChange_def Let_def shouldResetBackBlocks_def resetBackBlocks_def
      split: if_splits)

theorem front_edit_resets_back_witness:
  "frontPart (handleFrontChange props0 reset_input (Some 8) reset_s0) = js ''4111111''
   \<and> block3 (handleFrontChange props0 reset_input (Some 8) reset_s0) = []
   \<and> block4 (handleFrontChange props0 reset_input (Some 8) reset_s0) = []
   \<and> activeBlock (handleFrontChange props0 reset_input (Some 8) reset_s0) = Block3
   \<and> \<not> showKeypad (handleFrontChange props0 reset_input (Some 8) reset_s0)
   \<and> \<not> binCheckComplete (handleFrontChange props0 reset_input (Some 8) reset_s0)"
proof -
  have a: "resetBackOnFrontEdit props0" by (simp add: props0_def)
  have b: "prevFrontPartRef reset_s0 = frontPart reset_s0" by (simp add: reset_s0_def)
  have c: "block3 reset_s0 \<noteq> [] \<or> block4 reset_s0 \<noteq> []" by (simp add: reset_s0_def js_def)
  have d: "frontPart (handleFrontChange props0 reset_input (Some 8) reset_s0) \<noteq> frontPart reset_s0
           \<or> brand (handleFrontChange props0 reset_input (Some 8) reset_s0) \<noteq> brand reset_s0"
    unfolding front_delete_last_reset by (simp add: reset_s0_def js_def)
  show ?thesis
    using front_edit_resets_back [OF a b c refl d] by (simp add: front_delete_last_reset)
qed

section \<open>The keypad\<close>

text \<open>
  Claim C6: while \<open>binCheckComplete\<close> is false, a digit press with block 3 active leaves
  the whole state unchanged; once it is true, the same press appends the digit to block 3
  when the block is below its capacity.
\<close>

theorem keypad_block3_gated:
  assumes "activeBlock s = Block3"
  shows "(\<not> binCheckComplete s \<longrightarrow> handleKeypadNumber num s = s)
       \<and> (binCheckComplete s \<and> length (block3 s) < getBlock3MaxLength (brand s)
            \<longrightarrow> block3 (handleKeypadNumber num s) = block3 s @ num)"
  using assms by (simp add: handleKeypadNumber_def isBlock3Enabled_def Let_def)

theorem keypad_block3_gated_witness:
  "handleKeypadNumber (js ''5'') (state stale_w1) = state stale_w1
   \<and> binCheckComplete (binCheckThen (state stale_w1))
   \<and> block3 (handleKeypadNumber (js ''5'') (binCheckThen (state stale_w1))) = js ''5''"
proof -
  have a: "activeBlock (state stale_w1) = Block3"
    "activeBlock (binCheckThen (state stale_w1)) = Block3"
    by (simp_all add: stale_w1_def Let_def initialState_def binCheckThen_def)
  have b: "\<not> binCheckComplete (state stale_w1)"
    "binCheckComplete (binCheckThen (state stale_w1))"
    by (simp_all add: stale_w1_def Let_def initialState_def binCheckThen_def)
  have c: "length (block3 (binCheckThen (state stale_w1)))
           < getBlock3MaxLength (brand (binCheckThen (state stale_w1)))"
    "block3 (binCheckThen (state stale_w1)) = []"
    by (simp_all add: stale_w1_def Let_def initialState_def binCheckThen_def getBlock3MaxLength_def)
  show ?thesis
    using keypad_block3_gated [OF a(1), of "js ''5''"] keypad_block3_gated [OF a(2), of "js ''5''"]
      b c
    by simp
qed

section \<open>The BIN check\<close>

text \<open>
  Claim C1 as stated fails: the \<^verbatim>\<open>then\<close> continuation compares nothing. In the run below
  the check is requested for \<^verbatim>\<open>41111111\<close>, the front segment is edited to \<^verbatim>\<open>4111111\<close>
  while the request is in flight, and the response still turns \<open>binCheckComplete\<close> from
  false to true.
\<close>

theorem stale_response_counterexample:
  "run props0 [FrontChange (js ''41111111'') (Some 8), FrontChange (js ''4111 111'') (Some 8)]
     initialWidget = stale_w2
   \<and> inFlight stale_w2 = [js ''41111111'']
   \<and> frontPart (state stale_w2) = js ''4111111''
   \<and> \<not> binCheckComplete (state stale_w2)
   \<and> binCheckComplete (state (step props0 stale_w2 (BinCheckResolved 0)))"
proof -
  have r: "run props0 [FrontChange (js ''41111111'') (Some 8), FrontChange (js ''4111 111'') (Some 8)]
     initialWidget = stale_w2"
    by (simp add: run_def step_enter_all step_delete_last)
  have c: "binCheckComplete (state (step props0 stale_w2 (BinCheckResolved 0)))"
    by (simp add: step_def settle_eq stale_w2_def Let_def binCheckThen_def runEffects_def)
  show ?thesis using r c by (simp add: stale_w2_def Let_def initialState_def)
qed

text \<open>
  Claim C1, amended: when a request in flight resolves, \<open>binCheckComplete\<close> becomes true
  and \<open>binCheckLoading\<close> false, whatever front value the request was made for and
  whatever the front value is now; the front value is not touched.
\<close>

theorem resolved_sets_complete:
  assumes "i < length (inFlight w)"
  shows "binCheckComplete (state (step props w (BinCheckResolved i)))
         \<and> \<not> binCheckLoading (state (step props w (BinCheckResolved i)))
         \<and> frontPart (state (step props w (BinCheckResolved i))) = frontPart (state w)"
  using assms
  by (simp add: step_def settle_eq binCheckThen_def runEffects_def Let_def)

theorem resolved_sets_complete_witness:
  "inFlight stale_w2 ! 0 \<noteq> frontPart (state stale_w2)
   \<and> binCheckComplete (state (step props0 stale_w2 (BinCheckResolved 0)))
   \<and> \<not> binCheckLoading (state (step props0 stale_w2 (BinCheckResolved 0)))
   \<and> frontPart (state (step props0 stale_w2 (BinCheckResolved 0))) = js ''4111111''"
proof -
  have a: "0 < length (inFlight stale_w2)" by (simp add: stale_w2_def Let_def)
  show ?thesis
    using resolved_sets_complete [OF a, of props0]
    by (simp add: stale_w2_def Let_def js_def)
qed


section \<open>The display value\<close>

lemma displayBlock_eq:
  "displayBlock s b n = replicate (length b) BULLET @ drop (length b) (getBlockTemplate s n)"
proof -
  have "concat (map (\<lambda>_. [BULLET]) b) = replicate (length b) BULLET"
    by (induction b) simp_all
  then show ?thesis by (simp add: displayBlock_def Let_def slice_from_def)
qed

lemma displayBlock_nonempty: "displayBlock s b n \<noteq> []"
proof (cases b)
  case Nil
  then show ?thesis by (simp add: displayBlock_eq getBlockTemplate_def js_def)
next
  case (Cons x xs)
  then show ?thesis by (simp add: displayBlock_eq)
qed

text \<open>
  Claim C9 as stated fails: with one digit in block 3 and none in block 4, the empty
  block 4 is not left out of the join; its whole template is displayed.
\<close>

theorem display_value_counterexample:
  "block4 display_s0 = []
   \<and> getDisplayCardNumber display_s0 = js ''4111 1111 '' @ [BULLET] @ js ''234 1234''
   \<and> renderDisplayValue_spec display_s0 = js ''4111 1111 '' @ [BULLET] @ js ''234''
   \<and> getDisplayCardNumber display_s0 \<noteq> renderDisplayValue_spec display_s0"
proof -
  have f: "formatCardNumber (frontPart display_s0) = js ''4111 1111''"
    by (simp add: display_s0_def format_41111111)
  have a: "getDisplayCardNumber display_s0 = js ''4111 1111 '' @ [BULLET] @ js ''234 1234''"
    unfolding getDisplayCardNumber_def Let_def f displayBlock_eq
    by (simp add: display_s0_def initialState_def getBlockTemplate_def js_def SP_def)
  have b: "renderDisplayValue_spec display_s0 = js ''4111 1111 '' @ [BULLET] @ js ''234''"
    unfolding renderDisplayValue_spec_def f renderSegment_spec_def
    by (simp add: display_s0_def initialState_def getBlockTemplate_def js_def SP_def)
  show ?thesis unfolding a b by (simp add: display_s0_def initialState_def js_def)
qed

text \<open>
  Claim C9, amended: the front segment is formatted as usual; when at least one keypad
  segment holds digits, each of the two keypad segments, also one without digits, is one
  mask character for each digit and then the rest of its template, and the three display
  strings are joined with single spaces, the front one left out when it is empty.
\<close>

theorem display_value_blocks:
  "getDisplayCardNumber s =
     (if block3 s = [] \<and> block4 s = [] then formatCardNumber (frontPart s)
      else if formatCardNumber (frontPart s) = []
      then replicate (length (block3 s)) BULLET
             @ drop (length (block3 s)) (getBlockTemplate s Block3)
           @ [SP] @ replicate (length (block4 s)) BULLET
             @ drop (length (block4 s)) (getBlockTemplate s Block4)
      else formatCardNumber (frontPart s)
           @ [SP] @ replicate (length (block3 s)) BULLET
             @ drop (length (block3 s)) (getBlockTemplate s Block3)
           @ [SP] @ replicate (length (block4 s)) BULLET
             @ drop (length (block4 s)) (getBlockTemplate s Block4))"
  using displayBlock_nonempty[of s "block3 s" Block3] displayBlock_nonempty[of s "block4 s" Block4]
  by (simp add: getDisplayCardNumber_def Let_def displayBlock_eq)

theorem display_value_blocks_witness:
  "getDisplayCardNumber display_s0 = js ''4111 1111 '' @ [BULLET] @ js ''234 1234''
   \<and> getDisplayCardNumber (state stale_w1) = js ''4111 1111''"
proof -
  have f: "formatCardNumber (frontPart display_s0) = js ''4111 1111''"
    "formatCardNumber (frontPart (state stale_w1)) = js ''4111 1111''"
    by (simp_all add: display_s0_def stale_w1_def Let_def format_41111111)
  have "getDisplayCardNumber display_s0 = js ''4111 1111 '' @ [BULLET] @ js ''234 1234''"
    unfolding display_value_blocks [of display_s0] f
    by (simp add: display_s0_def initialState_def getBlockTemplate_def js_def SP_def)
  moreover have "getDisplayCardNumber (state stale_w1) = js ''4111 1111''"
    unfolding display_value_blocks [of "state stale_w1"] f
    by (simp add: stale_w1_def Let_def initialState_def)
  ultimately show ?thesis by simp
qed

section \<open>Brand detection\<close>

lemma first_match_mastercard:
  "detectCardBrand s = mastercard \<longleftrightarrow> (\<not> visa_pattern s \<and> mastercard_pattern s)"
  by (simp add: detectCardBrand_def patterns_def)

lemma visa_mastercard_disjoint: "mastercard_pattern s \<Longrightarrow> \<not> visa_pattern s"
  by (cases s rule: mastercard_pattern.cases) (auto simp: is_char_def)

lemma take2: "take 2 (a # b # r) = [a, b]" by (simp add: numeral_eq_Suc)

lemma take4: "take 4 (a # b # c # d # r) = [a, b, c, d]" by (simp add: numeral_eq_Suc)

lemma pv2: "prefix_value 2 (a # b # r) = Some (10 * (a - 48) + (b - 48))"
  by (simp add: prefix_value_def take2)

lemma pv4: "prefix_value 4 (a # b # c # d # r)
   = Some (1000 * (a - 48) + 100 * (b - 48) + 10 * (c - 48) + (d - 48))"
  by (simp add: prefix_value_def take4)

lemma pv_short: "length s < k \<Longrightarrow> prefix_value k s = None"
  by (simp add: prefix_value_def)

lemma range4:
  fixes A B C D :: nat
  assumes "A \<le> 9" "B \<le> 9" "C \<le> 9" "D \<le> 9"
  shows "(2220 \<le> 1000 * A + 100 * B + 10 * C + D \<and> 1000 * A + 100 * B + 10 * C + D \<le> 2720)
     \<longleftrightarrow> (A = 2 \<and> ((B = 2 \<and> 2 \<le> C) \<or> (3 \<le> B \<and> B \<le> 6) \<or> (B = 7 \<and> C \<le> 1)
                  \<or> (B = 7 \<and> C = 2 \<and> D = 0)))"
proof
  assume r: "2220 \<le> 1000 * A + 100 * B + 10 * C + D \<and> 1000 * A + 100 * B + 10 * C + D \<le> 2720"
  have A: "A = 2" using r assms by linarith
  have B: "2 \<le> B" "B \<le> 7" using r assms A by linarith+
  have C2: "B = 2 \<Longrightarrow> 2 \<le> C" using r assms A by linarith
  have C7: "B = 7 \<Longrightarrow> C \<le> 2" using r assms A by linarith
  have D7: "B = 7 \<Longrightarrow> C = 2 \<Longrightarrow> D = 0" using r assms A by linarith
  show "A = 2 \<and> ((B = 2 \<and> 2 \<le> C) \<or> (3 \<le> B \<and> B \<le> 6) \<or> (B = 7 \<and> C \<le> 1)
                  \<or> (B = 7 \<and> C = 2 \<and> D = 0))"
    using A B C2 C7 D7 by linarith
next
  assume "A = 2 \<and> ((B = 2 \<and> 2 \<le> C) \<or> (3 \<le> B \<and> B \<le> 6) \<or> (B = 7 \<and> C \<le> 1)
                  \<or> (B = 7 \<and> C = 2 \<and> D = 0))"
  then show "2220 \<le> 1000 * A + 100 * B + 10 * C + D \<and> 1000 * A + 100 * B + 10 * C + D \<le> 2720"
    using assms by linarith
qed

lemma range2:
  fixes A B :: nat
  assumes "A \<le> 9" "B \<le> 9"
  shows "(51 \<le> 10 * A + B \<and> 10 * A + B \<le> 55) \<longleftrightarrow> (A = 5 \<and> 1 \<le> B \<and> B \<le> 5)"
proof
  assume r: "51 \<le> 10 * A + B \<and> 10 * A + B \<le> 55"
  have "A = 5" using r assms by linarith
  then show "A = 5 \<and> 1 \<le> B \<and> B \<le> 5" using r by linarith
next
  assume "A = 5 \<and> 1 \<le> B \<and> B \<le> 5"
  then show "51 \<le> 10 * A + B \<and> 10 * A + B \<le> 55" by linarith
qed

lemma digit_value: "is_digit c \<Longrightarrow> \<exists>n \<le> 9. c = 48 + n"
  by (auto simp: is_digit_def in_range_def intro!: exI[of _ "c - 48"])

lemma mastercard_pattern_ranges:
  assumes "\<forall>c \<in> set s. is_digit c"
  shows "mastercard_pattern s
         \<longleftrightarrow> (in_prefix_range 2 51 55 s \<or> in_prefix_range 4 2220 2720 s)"
proof (cases s)
  case Nil
  then show ?thesis by (simp add: in_prefix_range_def pv_short)
next
  case s1: (Cons a r1)
  show ?thesis
  proof (cases r1)
    case Nil
    with s1 show ?thesis by (simp add: in_prefix_range_def pv_short)
  next
    case s2: (Cons b r2)
    from assms s1 s2 obtain A B where ab: "a = 48 + A" "A \<le> 9" "b = 48 + B" "B \<le> 9"
      using digit_value[of a] digit_value[of b] by auto
    have two: "in_prefix_range 2 51 55 s \<longleftrightarrow> (A = 5 \<and> 1 \<le> B \<and> B \<le> 5)"
      using range2[OF ab(2,4)] by (simp add: in_prefix_range_def s1 s2 pv2 ab)
    have short: "length r2 < 2 \<Longrightarrow> ?thesis"
    proof -
      assume l: "length r2 < 2"
      then have "prefix_value 4 s = None" by (simp add: s1 s2 pv_short)
      moreover have "(case r2 of c # d # x \<Rightarrow> P c d | _ \<Rightarrow> False) = False" for P
        using l by (cases r2; cases "tl r2") auto
      ultimately show ?thesis
        using two by (simp add: s1 s2 in_prefix_range_def is_char_def in_range_def ab)
    qed
    show ?thesis
    proof (cases r2)
      case Nil
      then show ?thesis using short by simp
    next
      case s3: (Cons c r3)
      show ?thesis
      proof (cases r3)
        case Nil
        with s3 show ?thesis using short by simp
      next
        case s4: (Cons d r4)
        from assms s1 s2 s3 s4 obtain C D where cd: "c = 48 + C" "C \<le> 9" "d = 48 + D" "D \<le> 9"
          using digit_value[of c] digit_value[of d] by auto
        have four: "in_prefix_range 4 2220 2720 s
           \<longleftrightarrow> (A = 2 \<and> ((B = 2 \<and> 2 \<le> C) \<or> (3 \<le> B \<and> B \<le> 6) \<or> (B = 7 \<and> C \<le> 1)
                  \<or> (B = 7 \<and> C = 2 \<and> D = 0)))"
          using range4[OF ab(2,4) cd(2,4)]
          by (simp add: in_prefix_range_def s1 s2 s3 s4 pv4 ab cd)
        have "mastercard_pattern s
           \<longleftrightarrow> ((A = 5 \<and> 1 \<le> B \<and> B \<le> 5)
               \<or> (A = 2 \<and> ((B = 2 \<and> 2 \<le> C) \<or> (3 \<le> B \<and> B \<le> 6) \<or> (B = 7 \<and> C \<le> 1)
                  \<or> (B = 7 \<and> C = 2 \<and> D = 0))))"
          using ab(2,4) cd(2,4)
          by (simp add: s1 s2 s3 s4 is_char_def in_range_def ab cd)
        with two four show ?thesis by simp
      qed
    qed
  qed
qed

text \<open>What the code takes for mastercard, on digit strings: the four-digit prefixes from
  2220 on, not from 2221.\<close>

lemma detectCardBrand_mastercard_ranges:
  assumes "\<forall>c \<in> set s. is_digit c"
  shows "detectCardBrand s = mastercard
         \<longleftrightarrow> (in_prefix_range 2 51 55 s \<or> in_prefix_range 4 2220 2720 s)"
  using mastercard_pattern_ranges [OF assms] visa_mastercard_disjoint [of s]
  by (auto simp: first_match_mastercard)

text \<open>
  Claim C2: the patterns are tried in the order visa, mastercard, amex, discover, diners,
  jcb, unionpay (\<open>patterns\<close>, \<open>first_match\<close>), but the digit string \<^verbatim>\<open>2220\<close>, whose
  four-digit prefix is below 2221, is classified as mastercard.
\<close>

theorem detectCardBrand_2220:
  "detectCardBrand (js ''2220'') = mastercard
   \<and> detectCardBrand (js ''2220000000000000'') = mastercard
   \<and> \<not> mastercard_spec (js ''2220'')
   \<and> \<not> mastercard_spec (js ''2220000000000000'')"
proof -
  have "prefix_value 2 (js ''2220'') = Some 22" "prefix_value 4 (js ''2220'') = Some 2220"
    "prefix_value 2 (js ''2220000000000000'') = Some 22"
    "prefix_value 4 (js ''2220000000000000'') = Some 2220"
    by (simp_all add: js_def pv2 pv4)
  then show ?thesis
    by (simp add: mastercard_spec_def in_prefix_range_def) (simp add: util_defs)
qed

end
